theory Spec2Isabelle
  imports Complex_Main "HOL-Library.List_Lexorder" "HOL-Library.Char_ord"
begin

section \<open>Errors\<close>

text \<open>
  The exceptions of \<^verbatim>\<open>bioencoder/core/losses.py\<close>, as values. The first group are the
  \<^verbatim>\<open>raise\<close> statements of the source, named as the specification names them:
  \<^item> \<open>DuplicateLabelError\<close>: \<^verbatim>\<open>ValueError("Duplicate tip labels found in the tree: ...")\<close>;
  \<^item> \<open>NoCommonAncestorError\<close>: \<^verbatim>\<open>ValueError("Tips ... do not share an ancestor in the tree.")\<close>;
  \<^item> \<open>ShapeError_rank\<close>: \<^verbatim>\<open>ValueError("`features` needs to be [bsz, n_views, ...], ...")\<close>;
  \<^item> \<open>ShapeError_labels\<close>: \<^verbatim>\<open>ValueError("Num of labels does not match num of features")\<close>;
  \<^item> \<open>ShapeError_batch\<close>: \<^verbatim>\<open>ValueError("Input tensors must have the same batch size")\<close>;
  \<^item> \<open>ArgumentConflictError\<close>: \<^verbatim>\<open>ValueError("Cannot define both `labels` and `mask`")\<close>;
  \<^item> \<open>UnknownModeError\<close>: \<^verbatim>\<open>ValueError("Unknown mode: ...")\<close>.

  The second group are the exceptions that Python and the libraries raise by themselves
  inside the modelled statements. \<open>ParseError\<close> stands for a failure of the reader of
  the tree file, and \<open>TorchError\<close> for an exception that a call of the tensor library
  raises on shapes it does not accept; the class of that exception is not modelled.
\<close>

datatype error =
    DuplicateLabelError
  | NoCommonAncestorError
  | ShapeError_rank
  | ShapeError_labels
  | ShapeError_batch
  | ArgumentConflictError
  | UnknownModeError
  | ParseError
  | NameError
  | AttributeError
  | KeyError
  | IndexError
  | ZeroDivisionError
  | MathDomainError
  | TorchError

text \<open>A loop over a list whose body may raise: the first error ends the loop.\<close>

fun for_each :: "('a \<Rightarrow> 's \<Rightarrow> error + 's) \<Rightarrow> 'a list \<Rightarrow> 's \<Rightarrow> error + 's" where
  "for_each body [] s = Inr s"
| "for_each body (x # xs) s =
     (case body x s of Inl e \<Rightarrow> Inl e | Inr s' \<Rightarrow> for_each body xs s')"

text \<open>
  \<^verbatim>\<open>itertools.combinations_with_replacement(range(n), 2)\<close>: the pairs \<open>(i, j)\<close> with
  \<open>i \<le> j < n\<close>, in lexicographic order.
\<close>

definition combinations_with_replacement2 :: "nat \<Rightarrow> (nat \<times> nat) list" where
  "combinations_with_replacement2 n =
     concat (map (\<lambda>i. map (\<lambda>j. (i, j)) [i..<n]) [0..<n])"

section \<open>Matrices\<close>

text \<open>
  A two-dimensional tensor is a list of rows. \<open>eye n\<close> is \<^verbatim>\<open>torch.eye(n)\<close>;
  \<open>mat_set m i j v\<close> is the assignment \<^verbatim>\<open>m[i, j] = v\<close> at indices in range. The
  elements of a matrix are real numbers: \<open>SupConLoss_init\<close> and the masks of the forward
  pass are computed in exact arithmetic. Where a property depends on the rounding of the
  program's floating-point numbers, the code is modelled with it
  (\<open>SupConLoss_init_float\<close> below).
\<close>

type_synonym matrix = "real list list"

definition eye :: "nat \<Rightarrow> matrix" where
  "eye n = map (\<lambda>i. map (\<lambda>j. if i = j then 1 else 0) [0..<n]) [0..<n]"

definition mat_set :: "'a list list \<Rightarrow> nat \<Rightarrow> nat \<Rightarrow> 'a \<Rightarrow> 'a list list" where
  "mat_set m i j v = m[i := (m ! i)[j := v]]"

definition is_square :: "nat \<Rightarrow> 'a list list \<Rightarrow> bool" where
  "is_square n m = (length m = n \<and> list_all (\<lambda>row. length row = n) m)"

section \<open>The phylogenetic tree\<close>

text \<open>
  The tree object that \<^verbatim>\<open>dendropy.Tree.get\<close> returns. A node carries the taxon of the
  node (\<open>None\<close> when the node has none), the length of the edge above it and its child
  nodes; a leaf is a node without children. The library is not part of the repository;
  the operations the constructor calls are modelled below from their documented
  contracts, which are also the specification's words.
\<close>

datatype node = Node (taxon: "string option") (edge_length: real) (child_nodes: "node list")

text \<open>
  A node of the tree is referred to by the chain of nodes that leads to it from the seed
  node: the seed node's child on the way, that child's child, and so on, ending with the
  node itself. The seed node is the empty chain, so \<^verbatim>\<open>anc is root\<close> is \<open>anc = []\<close>.
\<close>

type_synonym node_ref = "node list"

definition node_of :: "node \<Rightarrow> node_ref \<Rightarrow> node" where
  "node_of seed p = last (seed # p)"

text \<open>
  Modelled from the spec: \<^verbatim>\<open>Node.distance_from_root()\<close> of dendropy, the "distance from
  root (cumulative branch length)": the sum of the lengths of the edges between the seed
  node and the node.
\<close>

definition distance_from_root :: "node_ref \<Rightarrow> real" where
  "distance_from_root p = sum_list (map edge_length p)"

text \<open>
  Modelled from the spec: \<^verbatim>\<open>Tree.leaf_node_iter()\<close> of dendropy: the leaves of the tree,
  in pre-order.
\<close>

fun leaf_node_iter :: "node \<Rightarrow> node_ref list" where
  "leaf_node_iter (Node tx len cs) =
     (if cs = [] then [[]]
      else concat (map (\<lambda>c. map ((#) c) (leaf_node_iter c)) cs))"

definition leaf_taxa :: "node \<Rightarrow> string option list" where
  "leaf_taxa nd = map (\<lambda>leaf. taxon (node_of nd leaf)) (leaf_node_iter nd)"

definition has_taxon :: "node \<Rightarrow> string \<Rightarrow> bool" where
  "has_taxon nd a = (Some a \<in> set (leaf_taxa nd))"

text \<open>
  Modelled from the spec: \<^verbatim>\<open>Tree.mrca(taxon_labels=[a, b])\<close> of dendropy, the
  most-recent-common-ancestor node of the two labels: starting at the seed node, descend
  into a child as long as some child has leaves of both labels below it; the node where
  no child has is the result. There is no result when the tree does not have both labels.
\<close>

function mrca_from :: "node \<Rightarrow> string \<Rightarrow> string \<Rightarrow> node_ref" where
  "mrca_from nd a b =
     (case find (\<lambda>c. has_taxon c a \<and> has_taxon c b) (child_nodes nd) of
        None \<Rightarrow> []
      | Some c \<Rightarrow> c # mrca_from c a b)"
  by pat_completeness auto

lemma size_child_nodes: "c \<in> set (child_nodes nd) \<Longrightarrow> size c < size nd"
  by (cases nd) (auto simp: less_Suc_eq_le size_list_estimation')

lemma find_Some_set: "find P xs = Some x \<Longrightarrow> x \<in> set xs \<and> P x"
  by (induction xs) (auto split: if_splits)

termination mrca_from
  by (relation "measure (\<lambda>(nd, a, b). size nd)")
     (auto dest!: find_Some_set intro: size_child_nodes)

declare mrca_from.simps [simp del]

definition mrca :: "node \<Rightarrow> string \<Rightarrow> string \<Rightarrow> node_ref option" where
  "mrca seed a b =
     (if has_taxon seed a \<and> has_taxon seed b then Some (mrca_from seed a b) else None)"

text \<open>
  Modelled from the spec: the reader \<^verbatim>\<open>Tree.get(path=tree_path, schema="newick")\<close> of
  dendropy, called at line 37. \<open>files\<close> gives the tree that the text of the file at a path
  encodes, if the path names a file that encodes one. "Error if any two leaves share a
  label (\<open>DuplicateLabelError\<close>)": the reader maps every label to one taxon and refuses a
  label that comes a second time, before it returns a tree.
\<close>

definition taxon_labels :: "node \<Rightarrow> string list" where
  "taxon_labels t = List.map_filter (\<lambda>tx. tx) (leaf_taxa t)"

definition Tree_get_newick :: "(string \<Rightarrow> node option) \<Rightarrow> string \<Rightarrow> error + node" where
  "Tree_get_newick files path =
     (case files path of
        None \<Rightarrow> Inl ParseError
      | Some t \<Rightarrow> if distinct (taxon_labels t) then Inr t else Inl DuplicateLabelError)"

section \<open>Python dictionaries\<close>

text \<open>
  A dictionary built by a comprehension from a list of items: a key that occurs again
  keeps its place and takes the later value.
\<close>

definition dict_get :: "('k \<times> 'v) list \<Rightarrow> 'k \<Rightarrow> 'v option" where
  "dict_get items k = map_of (rev items) k"

definition dict_keys :: "('k \<times> 'v) list \<Rightarrow> 'k list" where
  "dict_keys items = rev (remdups (rev (map fst items)))"

section \<open>SupConLoss: the constructor\<close>

record SupConLoss =
  temperature :: real
  contrast_mode :: string
  base_temperature :: real
  tree_path :: "string option"
  tips :: "string list"
  bm_corr :: matrix

text \<open>
  The dictionary comprehension of lines 40 to 43, as its list of items.
  \<^verbatim>\<open>leaf.taxon.label\<close> raises \<open>AttributeError\<close> at a leaf without a taxon.
\<close>

definition tip_depths_items :: "node \<Rightarrow> error + (string \<times> real) list" where
  "tip_depths_items seed =
     (case those (map (\<lambda>leaf. map_option (\<lambda>label. (label, distance_from_root leaf))
                                 (taxon (node_of seed leaf)))
                      (leaf_node_iter seed)) of
        None \<Rightarrow> Inl AttributeError
      | Some items \<Rightarrow> Inr items)"

text \<open>
  The body of the loop of lines 51 to 66. The message of the \<^verbatim>\<open>raise\<close> of line 55 is
  the f-string \<^verbatim>\<open>f"... {tips[i]}"\<close>, and no variable \<^verbatim>\<open>tips\<close> is in scope (the list is
  \<^verbatim>\<open>self.tips\<close>): evaluating the message raises \<open>NameError\<close> before the \<open>ValueError\<close>
  exists. \<^verbatim>\<open>math.sqrt\<close> raises on a negative argument, and the division raises on a
  zero divisor. The chained assignment stores left to right.
\<close>

fun init_body ::
  "node \<Rightarrow> (string \<times> real) list \<Rightarrow> string list \<Rightarrow> nat \<times> nat \<Rightarrow> matrix \<Rightarrow> error + matrix"
where
  "init_body seed tip_depths tps (i, j) m =
     (if i = j then Inr m
      else if tps ! i = tps ! j then Inl NameError
      else
        (case mrca seed (tps ! i) (tps ! j) of
           None \<Rightarrow> Inl NoCommonAncestorError
         | Some anc \<Rightarrow>
             if anc = [] then Inr (mat_set (mat_set m i j 0) j i 0)
             else
               (let bm_var = distance_from_root anc in
                case dict_get tip_depths (tps ! i) of
                  None \<Rightarrow> Inl KeyError
                | Some t1_bm_var \<Rightarrow>
                    (case dict_get tip_depths (tps ! j) of
                       None \<Rightarrow> Inl KeyError
                     | Some t2_bm_var \<Rightarrow>
                         if t1_bm_var * t2_bm_var < 0 then Inl MathDomainError
                         else if sqrt (t1_bm_var * t2_bm_var) = 0 then Inl ZeroDivisionError
                         else
                           (let v = bm_var / sqrt (t1_bm_var * t2_bm_var)
                            in Inr (mat_set (mat_set m i j v) j i v))))))"

text \<open>
  \<^verbatim>\<open>SupConLoss.__init__\<close>. \<open>Tree_get\<close> is the library's reader of the tree file, a
  parameter of the model: it returns the parsed tree or fails. Without a tree path the
  attributes \<^verbatim>\<open>tips\<close> and \<^verbatim>\<open>bm_corr\<close> are never set; the model leaves them empty.
\<close>

definition SupConLoss_init ::
  "(string \<Rightarrow> error + node) \<Rightarrow> real \<Rightarrow> string \<Rightarrow> real \<Rightarrow> string option \<Rightarrow> error + SupConLoss"
where
  "SupConLoss_init Tree_get temp mode base_temp path =
     (case path of
        None \<Rightarrow>
          Inr \<lparr>temperature = temp, contrast_mode = mode, base_temperature = base_temp,
               tree_path = None, tips = [], bm_corr = []\<rparr>
      | Some p \<Rightarrow>
          (case Tree_get p of
             Inl e \<Rightarrow> Inl e
           | Inr seed \<Rightarrow>
               (case tip_depths_items seed of
                  Inl e \<Rightarrow> Inl e
                | Inr tip_depths \<Rightarrow>
                    (let tps = sort (dict_keys tip_depths);
                         n_tips = length tps
                     in case for_each (init_body seed tip_depths tps)
                               (combinations_with_replacement2 n_tips) (eye n_tips) of
                          Inl e \<Rightarrow> Inl e
                        | Inr m \<Rightarrow>
                            Inr \<lparr>temperature = temp, contrast_mode = mode,
                                 base_temperature = base_temp, tree_path = Some p,
                                 tips = tps, bm_corr = m\<rparr>))))"

section \<open>SupConLoss: the constructor in floating point\<close>


















section \<open>Tensors\<close>

text \<open>
  A tensor is its shape and its elements in row-major order (a contiguous tensor). The
  result of a loss is a scalar tensor. \<open>NonFinite\<close> is a scalar that is not a number
  (\<open>nan\<close>, \<open>inf\<close> or \<open>-inf\<close>): the tensor library returns one where a division has a
  zero divisor or a logarithm a zero argument, and raises nothing. \<open>Finite x\<close> is the
  number \<open>x\<close>, computed in exact arithmetic. \<open>Undetermined\<close> is a scalar that the model
  leaves open: floating-point arithmetic (rounding, overflow, underflow of the exponential)
  decides its value and whether it is a number at all.
\<close>

record tensor =
  shape :: "nat list"
  data :: "real list"

datatype loss_value = Finite real | NonFinite | Undetermined

text \<open>
  Indexing a dimension of size \<open>n\<close> with the integer \<open>k\<close>: a negative index counts from
  the end, and an index outside \<open>-n \<le> k < n\<close> raises \<open>IndexError\<close>.
\<close>

definition tensor_index :: "nat \<Rightarrow> int \<Rightarrow> error + nat" where
  "tensor_index n k =
     (if 0 \<le> k \<and> k < int n then Inr (nat k)
      else if - int n \<le> k \<and> k < 0 then Inr (nat (k + int n))
      else Inl IndexError)"

text \<open>\<^verbatim>\<open>a * b\<close> of two matrices of the same shape.\<close>

definition mat_mul :: "matrix \<Rightarrow> matrix \<Rightarrow> matrix" where
  "mat_mul a b = map2 (map2 (*)) a b"

section \<open>SupConLoss: the forward pass\<close>

text \<open>
  Lines 89 to 90: \<^verbatim>\<open>features.view(features.shape[0], features.shape[1], -1)\<close> when the
  tensor has more than three axes. The library refuses the size \<open>-1\<close> for a tensor without
  elements whose given sizes multiply to zero. The argument has at least three axes.
\<close>

definition flatten_features :: "tensor \<Rightarrow> error + tensor" where
  "flatten_features features =
     (if length (shape features) > 3 then
        (if shape features ! 0 * shape features ! 1 = 0 then Inl TorchError
         else Inr (features\<lparr>shape := [shape features ! 0, shape features ! 1,
                                         prod_list (drop 2 (shape features))]\<rparr>))
      else Inr features)"

text \<open>The vector \<^verbatim>\<open>features[b, v]\<close> of a tensor of three axes.\<close>

definition feature_vec :: "tensor \<Rightarrow> nat \<Rightarrow> nat \<Rightarrow> real list" where
  "feature_vec features b v =
     (let n_views = shape features ! 1; d = shape features ! 2
      in take d (drop ((b * n_views + v) * d) (data features)))"

text \<open>
  The body of the loop of lines 100 to 105, which fills the mask from the correlation
  matrix. \<^verbatim>\<open>labels[i]\<close> raises \<open>IndexError\<close> beyond the end of the labels, and so does
  \<^verbatim>\<open>self.bm_corr[tip1, tip2]\<close> for a label that is no index of the matrix.
\<close>

definition labels_get :: "int list \<Rightarrow> nat \<Rightarrow> error + int" where
  "labels_get labels i = (if i < length labels then Inr (labels ! i) else Inl IndexError)"

definition bm_corr_get :: "matrix \<Rightarrow> int \<Rightarrow> int \<Rightarrow> error + real" where
  "bm_corr_get m tip1 tip2 =
     (case tensor_index (length m) tip1 of
        Inl e \<Rightarrow> Inl e
      | Inr r \<Rightarrow>
          (case tensor_index (length (m ! r)) tip2 of
             Inl e \<Rightarrow> Inl e
           | Inr c \<Rightarrow> Inr (m ! r ! c)))"

fun mask_body :: "SupConLoss \<Rightarrow> int list \<Rightarrow> nat \<times> nat \<Rightarrow> matrix \<Rightarrow> error + matrix" where
  "mask_body self labels (i, j) mask' =
     (if i \<noteq> j then
        (case labels_get labels i of
           Inl e \<Rightarrow> Inl e
         | Inr tip1 \<Rightarrow>
             (case labels_get labels j of
                Inl e \<Rightarrow> Inl e
              | Inr tip2 \<Rightarrow>
                  (case bm_corr_get (bm_corr self) tip1 tip2 of
                     Inl e \<Rightarrow> Inl e
                   | Inr t12_corr \<Rightarrow> Inr (mat_set (mat_set mask' i j t12_corr) j i t12_corr))))
      else Inr mask')"

text \<open>
  Lines 93 to 112: the mask of the batch. The labels are a one-dimensional sequence of
  integers and an explicit mask is a matrix.
\<close>

definition derive_mask ::
  "SupConLoss \<Rightarrow> nat \<Rightarrow> int list option \<Rightarrow> matrix option \<Rightarrow> error + matrix"
where
  "derive_mask self batch_size labels mask_opt =
     (if labels \<noteq> None \<and> mask_opt \<noteq> None then Inl ArgumentConflictError
      else if labels = None \<and> mask_opt = None then Inr (eye batch_size)
      else if labels \<noteq> None \<and> tree_path self \<noteq> None then
        for_each (mask_body self (the labels))
          (combinations_with_replacement2 batch_size) (eye batch_size)
      else if labels \<noteq> None then
        (if length (the labels) \<noteq> batch_size then Inl ShapeError_labels
         else Inr (map (\<lambda>a. map (\<lambda>b. if a = b then 1 else 0) (the labels)) (the labels)))
      else Inr (the mask_opt))"

text \<open>
  Line 117: \<^verbatim>\<open>torch.cat(torch.unbind(features, dim=1), dim=0)\<close>, the vectors of the first
  view of every sample, then those of the second view, and so on.
\<close>

definition contrast_feature_of :: "tensor \<Rightarrow> real list list" where
  "contrast_feature_of features =
     concat (map (\<lambda>v. map (\<lambda>b. feature_vec features b v) [0..<shape features ! 0])
                 [0..<shape features ! 1])"

text \<open>Line 137: \<^verbatim>\<open>mask.repeat(anchor_count, contrast_count)\<close>.\<close>

definition mask_repeat :: "matrix \<Rightarrow> nat \<Rightarrow> nat \<Rightarrow> matrix" where
  "mask_repeat mask' anchor_count contrast_count =
     concat (replicate anchor_count (map (\<lambda>row. concat (replicate contrast_count row)) mask'))"

text \<open>
  Lines 139 to 144: a matrix of ones of the shape of the tiled mask, with a zero written
  at column \<open>r\<close> of every row \<open>r\<close>.
\<close>

definition logits_mask_of :: "matrix \<Rightarrow> matrix" where
  "logits_mask_of mask' =
     map (\<lambda>r. (replicate (length (mask' ! r)) 1)[r := 0]) [0..<length mask']"

text \<open>
  Lines 128 to 156, as far as the result is certain. The logits are the dot products of
  anchor and contrast features over the temperature, less the maximum of their row; the
  mask is the tiled mask with its self-contrast entries set to zero; the mean of line 152
  divides, row by row, the sum of \<^verbatim>\<open>mask * log_prob\<close> by the sum of the mask.
  \<^item> With a zero temperature every logit is a quotient by zero, \<open>inf\<close>, \<open>-inf\<close> or
    \<open>nan\<close>; the difference with the row maximum is \<open>nan\<close> in one column at least, and
    so are the sum of the exponentials, the log-probabilities of the row and the mean.
  \<^item> A row of the mask that is zero in every column has the sum zero; its numerator is a
    sum of products with zero, zero or \<open>nan\<close>, and the quotient of zero or \<open>nan\<close> by zero
    is \<open>nan\<close>, which the mean over the rows keeps.

  In both cases the scalar is not a number. In every other case the model leaves the
  scalar open.
\<close>

definition supcon_loss_value :: "real \<Rightarrow> matrix \<Rightarrow> loss_value" where
  "supcon_loss_value temp mask_tiled =
     (let logits_mask = logits_mask_of mask_tiled;
          mask' = mat_mul mask_tiled logits_mask
      in if temp = 0 \<or> list_ex (list_all (\<lambda>x. x = 0)) mask' then NonFinite
         else Undetermined)"

text \<open>
  Lines 118 to 125: the anchor features and their count, by the contrast mode.
  \<^verbatim>\<open>features[:, 0]\<close> is the first view of every sample.
\<close>

definition select_anchor :: "SupConLoss \<Rightarrow> tensor \<Rightarrow> error + real list list \<times> nat" where
  "select_anchor self feats =
     (if contrast_mode self = ''one''
      then Inr (map (\<lambda>b. feature_vec feats b 0) [0..<shape feats ! 0], 1)
      else if contrast_mode self = ''all''
      then Inr (contrast_feature_of feats, shape feats ! 1)
      else Inl UnknownModeError)"

text \<open>
  The shapes of a mask that lines 137 to 156 accept, for a batch of \<open>batch_size\<close> samples
  with \<open>n_views\<close> views: the shape of the batch, and, by broadcasting, one row of any
  positive length when the batch has one sample with one view. For every other shape some
  call of the library raises (the scatter of line 139, a product of two shapes that do
  not broadcast, or the view of line 156).
\<close>

definition mask_fits :: "nat \<Rightarrow> nat \<Rightarrow> matrix \<Rightarrow> bool" where
  "mask_fits batch_size n_views mask' =
     (is_square batch_size mask' \<or>
      (batch_size = 1 \<and> n_views = 1 \<and> length mask' = 1 \<and> mask' ! 0 \<noteq> []))"

text \<open>
  \<^verbatim>\<open>SupConLoss.forward\<close>. The library raises at line 117 when there is no view to
  concatenate, at line 133 when the batch is empty (a maximum over no element), and in
  lines 137 to 156 when the mask does not fit. The quotient
  \<^verbatim>\<open>self.temperature / self.base_temperature\<close> of line 155 is a quotient of Python
  numbers, which raises on a zero divisor.
\<close>

definition forward ::
  "SupConLoss \<Rightarrow> tensor \<Rightarrow> int list option \<Rightarrow> matrix option \<Rightarrow> error + loss_value"
where
  "forward self features labels mask_opt =
     (if length (shape features) < 3 then Inl ShapeError_rank
      else
        (case flatten_features features of
           Inl e \<Rightarrow> Inl e
         | Inr feats \<Rightarrow>
             (let batch_size = shape feats ! 0 in
              case derive_mask self batch_size labels mask_opt of
                Inl e \<Rightarrow> Inl e
              | Inr mask' \<Rightarrow>
                  (let contrast_count = shape feats ! 1 in
                   if contrast_count = 0 then Inl TorchError
                   else
                     (case select_anchor self feats of
                        Inl e \<Rightarrow> Inl e
                      | Inr (anchor_feature, anchor_count) \<Rightarrow>
                          if batch_size = 0 then Inl TorchError
                          else if \<not> mask_fits batch_size contrast_count mask' then Inl TorchError
                          else if base_temperature self = 0 then Inl ZeroDivisionError
                          else
                            Inr (supcon_loss_value (temperature self)
                                   (mask_repeat mask' anchor_count contrast_count)))))))"

section \<open>LabelSmoothingLoss\<close>

record LabelSmoothingLoss =
  confidence :: real
  smoothing :: real
  cls :: int
  dim :: int

definition LabelSmoothingLoss_init :: "int \<Rightarrow> real \<Rightarrow> int \<Rightarrow> LabelSmoothingLoss" where
  "LabelSmoothingLoss_init classes smoothing' dim' =
     \<lparr>confidence = 1 - smoothing', smoothing = smoothing', cls = classes, dim = dim'\<rparr>"

text \<open>
  \<^verbatim>\<open>log_softmax\<close> of a vector, and of a matrix along the axis \<open>d\<close>: along axis 1 every
  row is normalised, along axis 0 every column. \<open>sum_dim\<close> is \<^verbatim>\<open>torch.sum(m, dim=d)\<close>.
\<close>

definition log_softmax_row :: "real list \<Rightarrow> real list" where
  "log_softmax_row row = map (\<lambda>x. x - ln (sum_list (map exp row))) row"

definition log_softmax_dim :: "matrix \<Rightarrow> nat \<Rightarrow> matrix" where
  "log_softmax_dim m d =
     (if d = 1 then map log_softmax_row m
      else transpose (map log_softmax_row (transpose m)))"

definition sum_dim :: "matrix \<Rightarrow> nat \<Rightarrow> real list" where
  "sum_dim m d = (if d = 1 then map sum_list m else map sum_list (transpose m))"

text \<open>
  \<^verbatim>\<open>true_dist.scatter_(1, target.data.unsqueeze(1), value)\<close>: in row \<open>b\<close> the entry at
  column \<open>target[b]\<close> becomes the value. The library raises when an index is not a column.
\<close>

definition scatter1 :: "matrix \<Rightarrow> int list \<Rightarrow> real \<Rightarrow> error + matrix" where
  "scatter1 m target v =
     (if list_ex (\<lambda>(row, t). \<not> (0 \<le> t \<and> t < int (length row))) (zip m target)
      then Inl TorchError
      else Inr (map2 (\<lambda>row t. row[nat t := v]) m target))"

text \<open>
  \<^verbatim>\<open>LabelSmoothingLoss.forward\<close>, on a prediction matrix and a vector of integer targets.
  The two \<^verbatim>\<open>isinstance\<close> tests hold by the types of the arguments. The quotient
  \<^verbatim>\<open>self.smoothing / (self.cls - 1)\<close> is a quotient of Python numbers, which raises on a
  zero divisor; the mean of no element is not a number.
\<close>

definition LabelSmoothingLoss_forward ::
  "LabelSmoothingLoss \<Rightarrow> matrix \<Rightarrow> int list \<Rightarrow> error + loss_value"
where
  "LabelSmoothingLoss_forward self pred target =
     (if length pred \<noteq> length target then Inl ShapeError_batch
      else
        (case tensor_index 2 (dim self) of
           Inl e \<Rightarrow> Inl e
         | Inr d \<Rightarrow>
             (let pred' = log_softmax_dim pred d in
              if cls self - 1 = 0 then Inl ZeroDivisionError
              else
                (let true_dist = map (map (\<lambda>_. smoothing self / real_of_int (cls self - 1))) pred'
                 in case scatter1 true_dist target (confidence self) of
                      Inl e \<Rightarrow> Inl e
                    | Inr true_dist' \<Rightarrow>
                        (let s = sum_dim (mat_mul (map (map uminus) true_dist') pred') d
                         in Inr (if s = [] then NonFinite
                                 else Finite (sum_list s / real (length s))))))))"

text \<open>
  The standard cross-entropy loss, in the specification's words: the mean over the batch
  of the negative log-softmax probability of the true class.
\<close>

definition cross_entropy :: "matrix \<Rightarrow> int list \<Rightarrow> loss_value" where
  "cross_entropy pred target =
     (if pred = [] then NonFinite
      else Finite (sum_list (map2 (\<lambda>row t. - (log_softmax_row row ! nat t)) pred target)
                   / real (length pred)))"

section \<open>Valid trees and examples\<close>

text \<open>
  The tree file "must encode a single rooted tree with uniquely-labeled leaves and
  non-negative branch lengths": the leaf labels are \<open>distinct (leaf_taxa seed)\<close>, and the
  branch lengths are those of the edges below the seed node.
\<close>

fun nonneg_lengths :: "node \<Rightarrow> bool" where
  "nonneg_lengths (Node tx len cs) = list_all (\<lambda>c. 0 \<le> edge_length c \<and> nonneg_lengths c) cs"


text \<open>
  The value that the loop body of the constructor stores for the pair \<open>(i, j)\<close>, or the
  error it raises: the branches of \<open>init_body\<close> without the assignment.
\<close>

definition pair_corr ::
  "node \<Rightarrow> (string \<times> real) list \<Rightarrow> string list \<Rightarrow> nat \<Rightarrow> nat \<Rightarrow> error + real"
where
  "pair_corr seed tip_depths tps i j =
     (if tps ! i = tps ! j then Inl NameError
      else
        (case mrca seed (tps ! i) (tps ! j) of
           None \<Rightarrow> Inl NoCommonAncestorError
         | Some anc \<Rightarrow>
             if anc = [] then Inr 0
             else
               (case dict_get tip_depths (tps ! i) of
                  None \<Rightarrow> Inl KeyError
                | Some t1 \<Rightarrow>
                    (case dict_get tip_depths (tps ! j) of
                       None \<Rightarrow> Inl KeyError
                     | Some t2 \<Rightarrow>
                         if t1 * t2 < 0 then Inl MathDomainError
                         else if sqrt (t1 * t2) = 0 then Inl ZeroDivisionError
                         else Inr (distance_from_root anc / sqrt (t1 * t2))))))"





text \<open>
  The value that the loop body of the forward pass stores for the pair \<open>(i, j)\<close>, or the
  error it raises: the branches of \<open>mask_body\<close> without the assignment.
\<close>

definition mask_value :: "SupConLoss \<Rightarrow> int list \<Rightarrow> nat \<Rightarrow> nat \<Rightarrow> error + real" where
  "mask_value self labels i j =
     (case labels_get labels i of
        Inl e \<Rightarrow> Inl e
      | Inr tip1 \<Rightarrow>
          (case labels_get labels j of
             Inl e \<Rightarrow> Inl e
           | Inr tip2 \<Rightarrow> bm_corr_get (bm_corr self) tip1 tip2))"

text \<open>
  The tree \<^verbatim>\<open>((A:3,B:0):1,C:2);\<close> and the tree \<^verbatim>\<open>(A:1,A:1);\<close>, whose two leaves share
  the label \<open>A\<close>.
\<close>

definition example_tree :: node where
  "example_tree =
     Node None 0
       [Node None 1 [Node (Some ''A'') 3 [], Node (Some ''B'') 0 []],
        Node (Some ''C'') 2 []]"

definition example_loss :: SupConLoss where
  "example_loss =
     \<lparr>temperature = 7/100, contrast_mode = ''all'', base_temperature = 7/100,
      tree_path = Some ''tree.nwk'', tips = [''A'', ''B'', ''C''],
      bm_corr = [[1, 1/2, 0], [1/2, 1, 0], [0, 0, 1]]\<rparr>"



definition duplicate_tree :: node where
  "duplicate_tree = Node None 0 [Node (Some ''A'') 1 [], Node (Some ''A'') 1 []]"

text \<open>
  A loss without a tree, a feature tensor of two axes, a batch of two samples with one
  view each, and a batch of three samples with one view each.
\<close>

definition rank2_features :: tensor where
  "rank2_features = \<lparr>shape = [2, 1], data = [1, 1]\<rparr>"

definition no_tree_loss :: SupConLoss where
  "no_tree_loss =
     \<lparr>temperature = 7/100, contrast_mode = ''all'', base_temperature = 7/100,
      tree_path = None, tips = [], bm_corr = []\<rparr>"

definition single_view_features :: tensor where
  "single_view_features = \<lparr>shape = [2, 1, 1], data = [1, 1]\<rparr>"



section \<open>Properties of the model's building blocks\<close>

lemma set_combinations_with_replacement2:
  "set (combinations_with_replacement2 n) = {(i, j). i \<le> j \<and> j < n}"
  by (fastforce simp: combinations_with_replacement2_def)

lemma is_square_eye: "is_square n (eye n)"
  by (simp add: is_square_def eye_def list_all_iff)

lemma eye_nth: "i < n \<Longrightarrow> j < n \<Longrightarrow> eye n ! i ! j = (if i = j then 1 else 0)"
  by (simp add: eye_def)

lemma is_square_mat_set: "is_square n m \<Longrightarrow> is_square n (mat_set m i j v)"
proof (cases "i < length m")
  case True
  assume "is_square n m"
  with True show ?thesis
    by (auto simp: is_square_def mat_set_def list_all_iff dest!: set_update_subset_insert[THEN subsetD])
next
  case False
  assume "is_square n m"
  with False show ?thesis by (simp add: mat_set_def not_less list_update_beyond)
qed

lemma mat_set_nth:
  "is_square n m \<Longrightarrow> i < n \<Longrightarrow> j < n \<Longrightarrow> a < n \<Longrightarrow> b < n \<Longrightarrow>
   mat_set m i j v ! a ! b = (if a = i \<and> b = j then v else m ! a ! b)"
  by (auto simp: is_square_def mat_set_def list_all_iff nth_list_update)

text \<open>The chained assignment \<^verbatim>\<open>m[i, j] = m[j, i] = v\<close>.\<close>

lemma assign_sym_nth:
  assumes "is_square n m" "i < n" "j < n" "a < n" "b < n"
  shows "mat_set (mat_set m i j v) j i v ! a ! b =
         (if (a = i \<and> b = j) \<or> (a = j \<and> b = i) then v else m ! a ! b)"
proof -
  have sq: "is_square n (mat_set m i j v)" using assms(1) by (rule is_square_mat_set)
  have outer: "mat_set (mat_set m i j v) j i v ! a ! b =
      (if a = j \<and> b = i then v else mat_set m i j v ! a ! b)"
    by (rule mat_set_nth[OF sq assms(3) assms(2) assms(4) assms(5)])
  have inner: "mat_set m i j v ! a ! b = (if a = i \<and> b = j then v else m ! a ! b)"
    by (rule mat_set_nth[OF assms])
  show ?thesis
    by (subst outer, subst inner) (cases "a = i"; cases "b = j"; cases "a = j"; cases "b = i"; simp)
qed

lemma for_each_sym:
  assumes body: "\<And>i j m. body (i, j) m =
            (if i = j then Inr m
             else case val i j of Inl e \<Rightarrow> Inl e
                  | Inr v \<Rightarrow> Inr (mat_set (mat_set m i j v) j i v))"
  shows "for_each body ps m = Inr m' \<Longrightarrow> is_square n m \<Longrightarrow>
         (\<forall>(i, j) \<in> set ps. i \<le> j \<and> j < n) \<Longrightarrow>
         is_square n m' \<and>
         (\<forall>i j. i < j \<longrightarrow> j < n \<longrightarrow>
            (if (i, j) \<in> set ps then val i j = Inr (m' ! i ! j) \<and> m' ! j ! i = m' ! i ! j
             else m' ! i ! j = m ! i ! j \<and> m' ! j ! i = m ! j ! i)) \<and>
         (\<forall>i < n. m' ! i ! i = m ! i ! i)"
proof (induction ps arbitrary: m)
  case Nil
  then show ?case by simp
next
  case (Cons p ps)
  obtain i0 j0 where p: "p = (i0, j0)" by (cases p)
  from Cons.prems(3) p have r0: "i0 \<le> j0" "j0 < n" and rest: "\<forall>(i, j) \<in> set ps. i \<le> j \<and> j < n"
    by auto
  show ?case
  proof (cases "i0 = j0")
    case True
    with Cons.prems(1) p body have "for_each body ps m = Inr m'" by simp
    from Cons.IH[OF this Cons.prems(2) rest] True p show ?thesis by auto
  next
    case False
    with Cons.prems(1) p body obtain v where v: "val i0 j0 = Inr v"
      and run: "for_each body ps (mat_set (mat_set m i0 j0 v) j0 i0 v) = Inr m'"
      by (auto split: sum.splits)
    let ?m1 = "mat_set (mat_set m i0 j0 v) j0 i0 v"
    have sq1: "is_square n ?m1" using Cons.prems(2) by (simp add: is_square_mat_set)
    note IH = Cons.IH[OF run sq1 rest]
    have i0: "i0 < n" using r0 by simp
    have m1: "\<And>a b. a < n \<Longrightarrow> b < n \<Longrightarrow>
        ?m1 ! a ! b = (if (a = i0 \<and> b = j0) \<or> (a = j0 \<and> b = i0) then v else m ! a ! b)"
      using assign_sym_nth[OF Cons.prems(2) i0 r0(2)] by blast
    show ?thesis
    proof (intro conjI allI impI)
      show "is_square n m'" using IH by simp
    next
      fix i j :: nat assume ij: "i < j" "j < n"
      then have "i < n" by simp
      from IH ij have H: "(if (i, j) \<in> set ps then val i j = Inr (m' ! i ! j) \<and> m' ! j ! i = m' ! i ! j
             else m' ! i ! j = ?m1 ! i ! j \<and> m' ! j ! i = ?m1 ! j ! i)" by blast
      show "if (i, j) \<in> set (p # ps) then val i j = Inr (m' ! i ! j) \<and> m' ! j ! i = m' ! i ! j
             else m' ! i ! j = m ! i ! j \<and> m' ! j ! i = m ! j ! i"
      proof (cases "(i, j) \<in> set ps")
        case True
        with H show ?thesis by simp
      next
        case nin: False
        with H have e: "m' ! i ! j = ?m1 ! i ! j" "m' ! j ! i = ?m1 ! j ! i" by simp_all
        show ?thesis
        proof (cases "(i, j) = (i0, j0)")
          case True
          with e v m1[OF i0 r0(2)] m1[OF r0(2) i0] p show ?thesis by simp
        next
          case False
          with ij r0 False have "\<not> ((i = i0 \<and> j = j0) \<or> (i = j0 \<and> j = i0))"
            "\<not> ((j = i0 \<and> i = j0) \<or> (j = j0 \<and> i = i0))" by auto
          with e m1[OF \<open>i < n\<close> ij(2)] m1[OF ij(2) \<open>i < n\<close>] nin False p show ?thesis by auto
        qed
      qed
    next
      fix i assume "i < n"
      with IH have "m' ! i ! i = ?m1 ! i ! i" by simp
      also have "\<dots> = m ! i ! i" using m1[OF \<open>i < n\<close> \<open>i < n\<close>] False by auto
      finally show "m' ! i ! i = m ! i ! i" .
    qed
  qed
qed

lemma those_map_Some:
  "those (map g xs) = Some ys \<Longrightarrow> ys = map (the \<circ> g) xs \<and> (\<forall>x \<in> set xs. g x \<noteq> None)"
  by (induction xs arbitrary: ys) (auto split: option.splits)

lemma tip_depths_items_Inr:
  assumes "tip_depths_items seed = Inr td"
  shows "td = map (\<lambda>leaf. (the (taxon (node_of seed leaf)), distance_from_root leaf))
                 (leaf_node_iter seed)"
    and "\<forall>leaf \<in> set (leaf_node_iter seed). taxon (node_of seed leaf) \<noteq> None"
    and "map (Some \<circ> fst) td = leaf_taxa seed"
proof -
  let ?g = "\<lambda>leaf. map_option (\<lambda>label. (label, distance_from_root leaf)) (taxon (node_of seed leaf))"
  from assms have th: "those (map ?g (leaf_node_iter seed)) = Some td"
    by (simp add: tip_depths_items_def split: option.splits)
  from those_map_Some[OF th] have td: "td = map (the \<circ> ?g) (leaf_node_iter seed)"
    and ne: "\<forall>x \<in> set (leaf_node_iter seed). ?g x \<noteq> None" by simp_all
  from ne show 2: "\<forall>leaf \<in> set (leaf_node_iter seed). taxon (node_of seed leaf) \<noteq> None"
    by simp
  from td 2 show 1: "td = map (\<lambda>leaf. (the (taxon (node_of seed leaf)), distance_from_root leaf))
                 (leaf_node_iter seed)"
    by auto
  from 1 2 show "map (Some \<circ> fst) td = leaf_taxa seed"
    by (auto simp: leaf_taxa_def)
qed

lemma tips_sorted_distinct:
  "set (sort (dict_keys td)) = fst ` set td"
  "distinct (sort (dict_keys td))"
  "length (sort (dict_keys td)) \<le> length td"
  by (simp_all add: dict_keys_def) (metis length_map length_remdups_leq length_rev)

lemma tips_nth_neq:
  "i < j \<Longrightarrow> j < length (sort (dict_keys td)) \<Longrightarrow>
   sort (dict_keys td) ! i \<noteq> sort (dict_keys td) ! j"
  using tips_sorted_distinct(2)[of td] by (simp add: nth_eq_iff_index_eq)

lemma dict_get_SomeD: "dict_get td a = Some t \<Longrightarrow> (a, t) \<in> set td"
  by (auto simp: dict_get_def dest: map_of_SomeD)


lemma leaf_taxa_Node:
  "leaf_taxa (Node tx len cs) = (if cs = [] then [tx] else concat (map leaf_taxa cs))"
  by (auto simp: leaf_taxa_def node_of_def map_concat comp_def intro!: arg_cong[where f=concat])

lemma leaf_taxa_nonempty: "leaf_taxa nd \<noteq> []"
proof (induction nd)
  case (Node tx len cs)
  then show ?case by (cases cs) (auto simp: leaf_taxa_Node)
qed

lemma leaf_node_iter_child:
  assumes "leaf \<in> set (leaf_node_iter nd)" "child_nodes nd \<noteq> []"
  obtains c leaf' where "leaf = c # leaf'" "c \<in> set (child_nodes nd)" "leaf' \<in> set (leaf_node_iter c)"
  using assms by (cases nd) auto

lemma node_of_Cons: "node_of nd (c # p) = node_of c p"
  by (simp add: node_of_def)

lemma has_taxon_leaf:
  "leaf \<in> set (leaf_node_iter nd) \<Longrightarrow> taxon (node_of nd leaf) = Some a \<Longrightarrow> has_taxon nd a"
  by (force simp: has_taxon_def leaf_taxa_def)

lemma distinct_concat_unique:
  "distinct (concat (map f cs)) \<Longrightarrow> c \<in> set cs \<Longrightarrow> c' \<in> set cs \<Longrightarrow>
   x \<in> set (f c) \<Longrightarrow> x \<in> set (f c') \<Longrightarrow> c = c'"
  by (induction cs) auto

lemma distinct_concat_member:
  "distinct (concat (map f cs)) \<Longrightarrow> c \<in> set cs \<Longrightarrow> distinct (f c)"
  by (induction cs) auto

lemma mrca_from_prefix:
  "distinct (leaf_taxa nd) \<Longrightarrow> leaf \<in> set (leaf_node_iter nd) \<Longrightarrow>
   taxon (node_of nd leaf) = Some a \<or> taxon (node_of nd leaf) = Some b \<Longrightarrow>
   \<exists>q. leaf = mrca_from nd a b @ q"
proof (induction nd a b arbitrary: leaf rule: mrca_from.induct)
  case (1 nd a b)
  show ?case
  proof (cases "find (\<lambda>c. has_taxon c a \<and> has_taxon c b) (child_nodes nd)")
    case None
    then show ?thesis by (subst mrca_from.simps) simp
  next
    case (Some c)
    then have c: "c \<in> set (child_nodes nd)" "has_taxon c a" "has_taxon c b"
      by (auto dest: find_Some_set)
    then have ne: "child_nodes nd \<noteq> []" by auto
    from leaf_node_iter_child[OF "1.prems"(2) ne] obtain c' leaf' where
      l: "leaf = c' # leaf'" "c' \<in> set (child_nodes nd)" "leaf' \<in> set (leaf_node_iter c')"
      by blast
    from "1.prems"(3) l have tx: "taxon (node_of c' leaf') = Some a \<or> taxon (node_of c' leaf') = Some b"
      by (simp add: node_of_Cons)
    have dc: "distinct (concat (map leaf_taxa (child_nodes nd)))"
      using "1.prems"(1) ne by (cases nd) (simp add: leaf_taxa_Node)
    from tx l(3) have "has_taxon c' a \<or> has_taxon c' b" by (auto intro: has_taxon_leaf)
    with c have "\<exists>x. x \<in> set (leaf_taxa c) \<and> x \<in> set (leaf_taxa c')"
      by (auto simp: has_taxon_def)
    with distinct_concat_unique[OF dc c(1) l(2)] have cc: "c = c'" by blast
    have "distinct (leaf_taxa c)" using dc c(1) by (rule distinct_concat_member)
    from "1.IH"[OF Some this] l(3) tx cc obtain q where "leaf' = mrca_from c a b @ q" by blast
    with l cc Some show ?thesis by (subst mrca_from.simps) simp
  qed
qed

lemma leaf_chain_nonneg:
  "nonneg_lengths nd \<Longrightarrow> leaf \<in> set (leaf_node_iter nd) \<Longrightarrow> \<forall>x \<in> set leaf. 0 \<le> edge_length x"
proof (induction nd arbitrary: leaf)
  case (Node tx len cs)
  show ?case
  proof (cases "cs = []")
    case True
    with Node.prems show ?thesis by simp
  next
    case False
    with Node.prems(2) obtain c leaf' where
      l: "leaf = c # leaf'" "c \<in> set cs" "leaf' \<in> set (leaf_node_iter c)"
      by auto
    from Node.prems(1) l(2) have "0 \<le> edge_length c" "nonneg_lengths c"
      by (auto simp: list_all_iff)
    with Node.IH[OF l(2) _ l(3)] l(1) show ?thesis by simp
  qed
qed

lemma distance_from_root_append:
  "distance_from_root (p @ q) = distance_from_root p + distance_from_root q"
  by (simp add: distance_from_root_def)

lemma distance_from_root_nonneg:
  "\<forall>x \<in> set p. 0 \<le> edge_length x \<Longrightarrow> 0 \<le> distance_from_root p"
  by (auto simp: distance_from_root_def intro!: sum_list_nonneg)

lemma mrca_depth_bounds:
  assumes "nonneg_lengths seed" "distinct (leaf_taxa seed)"
    and "leaf \<in> set (leaf_node_iter seed)"
    and "taxon (node_of seed leaf) = Some a \<or> taxon (node_of seed leaf) = Some b"
  shows "0 \<le> distance_from_root (mrca_from seed a b)"
    and "distance_from_root (mrca_from seed a b) \<le> distance_from_root leaf"
proof -
  from mrca_from_prefix[OF assms(2,3,4)] obtain q where q: "leaf = mrca_from seed a b @ q" by blast
  from leaf_chain_nonneg[OF assms(1,3)] q have
    "\<forall>x \<in> set (mrca_from seed a b). 0 \<le> edge_length x" "\<forall>x \<in> set q. 0 \<le> edge_length x"
    by auto
  then have "0 \<le> distance_from_root (mrca_from seed a b)" "0 \<le> distance_from_root q"
    by (simp_all add: distance_from_root_nonneg)
  then show "0 \<le> distance_from_root (mrca_from seed a b)"
    and "distance_from_root (mrca_from seed a b) \<le> distance_from_root leaf"
    using q by (simp_all add: distance_from_root_append)
qed

lemma init_body_pair_corr:
  "init_body seed td tps (i, j) m =
     (if i = j then Inr m
      else case pair_corr seed td tps i j of
             Inl e \<Rightarrow> Inl e
           | Inr v \<Rightarrow> Inr (mat_set (mat_set m i j v) j i v))"
  by (simp add: pair_corr_def Let_def split: option.splits)

lemma for_each_Inl:
  "for_each body ps s = Inl e \<Longrightarrow> \<exists>x \<in> set ps. \<exists>s'. body x s' = Inl e"
  by (induction ps arbitrary: s) (auto split: sum.splits)

lemma SupConLoss_init_Inr:
  assumes "SupConLoss_init Tree_get temp mode base_temp (Some p) = Inr obj"
  obtains seed td where "Tree_get p = Inr seed" "tip_depths_items seed = Inr td"
    "tips obj = sort (dict_keys td)" "tree_path obj = Some p"
    "temperature obj = temp" "contrast_mode obj = mode" "base_temperature obj = base_temp"
    "for_each (init_body seed td (tips obj))
       (combinations_with_replacement2 (length (tips obj))) (eye (length (tips obj)))
     = Inr (bm_corr obj)"
  using assms by (auto simp: SupConLoss_init_def Let_def split: sum.splits)

lemma SupConLoss_init_td:
  assumes "SupConLoss_init Tree_get temp mode base_temp (Some p) = Inr obj"
    and "Tree_get p = Inr seed"
  obtains td where "tip_depths_items seed = Inr td" "tips obj = sort (dict_keys td)"
  using assms by (auto simp: SupConLoss_init_def Let_def split: sum.splits)

lemma SupConLoss_init_matrix:
  assumes init: "SupConLoss_init Tree_get temp mode base_temp (Some p) = Inr obj"
    and tree: "Tree_get p = Inr seed"
    and td: "tip_depths_items seed = Inr td"
  shows "is_square (length (tips obj)) (bm_corr obj)"
    and "i < j \<Longrightarrow> j < length (tips obj) \<Longrightarrow>
       pair_corr seed td (tips obj) i j = Inr (bm_corr obj ! i ! j) \<and>
       bm_corr obj ! j ! i = bm_corr obj ! i ! j"
    and "i < length (tips obj) \<Longrightarrow> bm_corr obj ! i ! i = 1"
proof -
  let ?n = "length (tips obj)"
  from init tree td have run: "for_each (init_body seed td (tips obj))
       (combinations_with_replacement2 ?n) (eye ?n) = Inr (bm_corr obj)"
    by (auto simp: SupConLoss_init_def Let_def split: sum.splits)
  have ps: "\<forall>(i, j) \<in> set (combinations_with_replacement2 ?n). i \<le> j \<and> j < ?n"
    by (simp add: set_combinations_with_replacement2)
  note R = for_each_sym[where val = "pair_corr seed td (tips obj)" and n = ?n,
      OF init_body_pair_corr run is_square_eye ps]
  from R show "is_square ?n (bm_corr obj)" by simp
  from R have upper: "\<forall>i j. i < j \<longrightarrow> j < ?n \<longrightarrow>
      (if (i, j) \<in> set (combinations_with_replacement2 ?n)
       then pair_corr seed td (tips obj) i j = Inr (bm_corr obj ! i ! j) \<and>
            bm_corr obj ! j ! i = bm_corr obj ! i ! j
       else bm_corr obj ! i ! j = eye ?n ! i ! j \<and> bm_corr obj ! j ! i = eye ?n ! j ! i)"
    by (rule conjunct1[OF conjunct2])
  show "pair_corr seed td (tips obj) i j = Inr (bm_corr obj ! i ! j) \<and>
       bm_corr obj ! j ! i = bm_corr obj ! i ! j" if "i < j" "j < ?n"
  proof -
    from that have "(i, j) \<in> set (combinations_with_replacement2 ?n)"
      by (simp add: set_combinations_with_replacement2)
    with upper[rule_format, OF that] show ?thesis by simp
  qed
  from R have "\<forall>i < ?n. bm_corr obj ! i ! i = eye ?n ! i ! i"
    by (rule conjunct2[OF conjunct2])
  then show "bm_corr obj ! i ! i = 1" if "i < ?n"
    using that by (simp add: eye_nth)
qed




lemma pair_corr_Inr:
  assumes "pair_corr seed td tps i j = Inr v"
  shows "(mrca seed (tps ! i) (tps ! j) = Some [] \<and> v = 0) \<or>
         (\<exists>anc t1 t2. mrca seed (tps ! i) (tps ! j) = Some anc \<and> anc \<noteq> [] \<and>
            anc = mrca_from seed (tps ! i) (tps ! j) \<and>
            dict_get td (tps ! i) = Some t1 \<and> dict_get td (tps ! j) = Some t2 \<and>
            0 \<le> t1 * t2 \<and> sqrt (t1 * t2) \<noteq> 0 \<and>
            v = distance_from_root anc / sqrt (t1 * t2))"
proof (cases "mrca seed (tps ! i) (tps ! j)")
  case None
  with assms show ?thesis by (simp add: pair_corr_def split: if_splits)
next
  case (Some anc)
  then have anc: "anc = mrca_from seed (tps ! i) (tps ! j)"
    by (simp add: mrca_def split: if_splits)
  show ?thesis
  proof (cases "anc = []")
    case True
    with assms Some show ?thesis by (simp add: pair_corr_def split: if_splits)
  next
    case False
    from assms Some False obtain t1 where t1: "dict_get td (tps ! i) = Some t1"
      by (cases "dict_get td (tps ! i)") (simp_all add: pair_corr_def split: if_splits)
    from assms Some False t1 obtain t2 where t2: "dict_get td (tps ! j) = Some t2"
      by (cases "dict_get td (tps ! j)") (simp_all add: pair_corr_def split: if_splits)
    from assms Some False t1 t2 have
      "0 \<le> t1 * t2 \<and> sqrt (t1 * t2) \<noteq> 0 \<and> v = distance_from_root anc / sqrt (t1 * t2)"
      by (simp add: pair_corr_def not_less split: if_splits)
    with Some False anc t1 t2 show ?thesis by blast
  qed
qed


























section \<open>The examples, evaluated\<close>








lemma ex_nonneg: "nonneg_lengths example_tree"
  by (simp add: example_tree_def)




















section \<open>C1: duplicate leaf labels\<close>

text \<open>
  The keys of a dictionary are distinct, so the sorted list of tips never holds a label
  twice, whatever tree the reader returns: the test of line 54 is never true, and the
  constructor raises neither the error of line 55 nor the \<open>NameError\<close> that building its
  message would raise. A \<open>DuplicateLabelError\<close> can only be the reader's.
\<close>

lemma duplicate_check_never_fires:
  assumes "Tree_get p = Inr seed"
  shows "SupConLoss_init Tree_get temp mode base_temp (Some p) \<noteq> Inl NameError"
    and "SupConLoss_init Tree_get temp mode base_temp (Some p) \<noteq> Inl DuplicateLabelError"
proof -
  have items: "e = AttributeError" if "tip_depths_items seed = Inl e" for e
    using that by (simp add: tip_depths_items_def split: option.splits)
  have loop: "e \<noteq> NameError \<and> e \<noteq> DuplicateLabelError"
    if run: "for_each (init_body seed td (sort (dict_keys td)))
        (combinations_with_replacement2 (length (sort (dict_keys td))))
        (eye (length (sort (dict_keys td)))) = Inl e" for td e
  proof -
    from for_each_Inl[OF run] obtain i j m where
      ij: "(i, j) \<in> set (combinations_with_replacement2 (length (sort (dict_keys td))))"
      and b: "init_body seed td (sort (dict_keys td)) (i, j) m = Inl e"
      by auto
    from ij have le: "i \<le> j" "j < length (sort (dict_keys td))"
      by (simp_all add: set_combinations_with_replacement2)
    from b have "i \<noteq> j" by auto
    with le have "i < j" by simp
    from tips_nth_neq[OF this le(2)] b \<open>i \<noteq> j\<close> show ?thesis
      by (auto simp: Let_def split: option.splits if_splits)
  qed
  from assms items loop
  show "SupConLoss_init Tree_get temp mode base_temp (Some p) \<noteq> Inl NameError"
    by (auto simp: SupConLoss_init_def Let_def split: sum.splits)
  from assms items loop
  show "SupConLoss_init Tree_get temp mode base_temp (Some p) \<noteq> Inl DuplicateLabelError"
    by (auto simp: SupConLoss_init_def Let_def split: sum.splits)
qed

lemma map_filter_id_Cons:
  "List.map_filter (\<lambda>tx. tx) (x # xs) =
     (case x of None \<Rightarrow> List.map_filter (\<lambda>tx. tx) xs
      | Some a \<Rightarrow> a # List.map_filter (\<lambda>tx. tx) xs)"
  by (simp add: List.map_filter_simps split: option.splits)

lemma set_map_filter_id: "set (List.map_filter (\<lambda>tx. tx) xs) = {a. Some a \<in> set xs}"
  by (force simp: List.map_filter_def)

lemma repeated_not_distinct:
  "i < j \<Longrightarrow> j < length xs \<Longrightarrow> xs ! i = Some a \<Longrightarrow> xs ! j = Some a \<Longrightarrow>
   \<not> distinct (List.map_filter (\<lambda>tx. tx) xs)"
proof (induction xs arbitrary: i j)
  case Nil
  then show ?case by simp
next
  case (Cons x xs)
  show ?case
  proof (cases i)
    case 0
    with Cons.prems obtain j' where j: "j = Suc j'" "j' < length xs" "xs ! j' = Some a"
      by (cases j) auto
    then have "Some a \<in> set xs" by (auto simp: in_set_conv_nth)
    with 0 Cons.prems(3) show ?thesis
      by (simp add: map_filter_id_Cons set_map_filter_id)
  next
    case (Suc i')
    with Cons.prems obtain j' where j: "j = Suc j'" by (cases j) auto
    with Suc Cons.prems have "\<not> distinct (List.map_filter (\<lambda>tx. tx) xs)"
      by (intro Cons.IH[of i' j']) auto
    then show ?thesis by (simp add: map_filter_id_Cons split: option.splits)
  qed
qed

lemma distinct_taxa_labels:
  "distinct (leaf_taxa t) \<Longrightarrow> distinct (taxon_labels t)"
  by (auto simp: taxon_labels_def List.map_filter_def distinct_map inj_on_def)

text \<open>A tree with uniquely labelled leaves is read.\<close>

lemma unique_labels_read:
  "files path = Some t \<Longrightarrow> distinct (leaf_taxa t) \<Longrightarrow> Tree_get_newick files path = Inr t"
  by (simp add: Tree_get_newick_def distinct_taxa_labels)

text \<open>
  C1. For every tree file in which two leaves share the same taxon label, constructing the
  loss with the path of the file fails with \<open>DuplicateLabelError\<close>; construction does not
  succeed on such a tree. The error is the reader's, at line 37: the constructor's own
  lines 40 to 66 are never reached with such a tree.
\<close>

theorem duplicate_labels_rejected:
  assumes "files path = Some t"
    and "i < j" "j < length (leaf_taxa t)"
    and "leaf_taxa t ! i = Some a" "leaf_taxa t ! j = Some a"
  shows "SupConLoss_init (Tree_get_newick files) temp mode base_temp (Some path) =
         Inl DuplicateLabelError"
proof -
  from assms(2-5) have "\<not> distinct (taxon_labels t)"
    unfolding taxon_labels_def by (rule repeated_not_distinct)
  with assms(1) show ?thesis
    by (simp add: SupConLoss_init_def Tree_get_newick_def)
qed

theorem duplicate_labels_rejected_witness:
  "leaf_taxa duplicate_tree ! 0 = Some ''A'' \<and> leaf_taxa duplicate_tree ! 1 = Some ''A'' \<and>
   SupConLoss_init (Tree_get_newick (\<lambda>p. Some duplicate_tree)) (7/100) ''all'' (7/100)
     (Some ''tree.nwk'') = Inl DuplicateLabelError"
proof -
  have t: "leaf_taxa duplicate_tree = [Some ''A'', Some ''A'']"
    by (simp add: duplicate_tree_def leaf_taxa_def node_of_def)
  from duplicate_labels_rejected[of "\<lambda>p. Some duplicate_tree" "''tree.nwk''" duplicate_tree 0 1 "''A''"] t
  show ?thesis by simp
qed

section \<open>C2: the entries of the correlation matrix\<close>



section \<open>The correlation matrix in exact arithmetic\<close>

text \<open>
  In exact arithmetic, when the constructor succeeds on a tree with uniquely labelled
  leaves and non-negative branch lengths, the matrix \<open>bm_corr\<close> is square of the size of
  the tip list, symmetric, has 1 at every diagonal entry, and every off-diagonal entry
  lies in the closed interval from 0 to 1: the chain of the common ancestor is a prefix
  of the chains of both leaves.
\<close>

lemma bm_corr_exact_arithmetic:
  assumes init: "SupConLoss_init Tree_get temp mode base_temp (Some p) = Inr obj"
    and tree: "Tree_get p = Inr seed" and d: "distinct (leaf_taxa seed)"
    and nn: "nonneg_lengths seed"
    and ij: "i < length (tips obj)" "j < length (tips obj)"
  shows "is_square (length (tips obj)) (bm_corr obj) \<and>
         bm_corr obj ! i ! j = bm_corr obj ! j ! i \<and>
         bm_corr obj ! i ! i = 1 \<and>
         (i \<noteq> j \<longrightarrow> 0 \<le> bm_corr obj ! i ! j \<and> bm_corr obj ! i ! j \<le> 1)"
proof -
  from init tree obtain td where td: "tip_depths_items seed = Inr td"
    by (rule SupConLoss_init_td)
  note sq = SupConLoss_init_matrix(1)[OF init tree td]
    and pc = SupConLoss_init_matrix(2)[OF init tree td]
    and diag = SupConLoss_init_matrix(3)[OF init tree td]
  note T = tip_depths_items_Inr[OF td]
  have leaf_of: "\<exists>leaf \<in> set (leaf_node_iter seed).
      taxon (node_of seed leaf) = Some a \<and> t = distance_from_root leaf"
    if "dict_get td a = Some t" for a t
  proof -
    from dict_get_SomeD[OF that] T(1) obtain leaf where
      "leaf \<in> set (leaf_node_iter seed)" "a = the (taxon (node_of seed leaf))"
      "t = distance_from_root leaf" by auto
    with T(2) show ?thesis by force
  qed
  have bound: "0 \<le> bm_corr obj ! a ! b \<and> bm_corr obj ! a ! b \<le> 1"
    if ab: "a < b" "b < length (tips obj)" for a b
  proof -
    let ?x = "tips obj ! a" and ?y = "tips obj ! b"
    from pc[OF ab] have P: "pair_corr seed td (tips obj) a b = Inr (bm_corr obj ! a ! b)" by simp
    from pair_corr_Inr[OF P] show ?thesis
    proof
      assume "mrca seed ?x ?y = Some [] \<and> bm_corr obj ! a ! b = 0"
      then show ?thesis by simp
    next
      assume "\<exists>anc t1 t2. mrca seed ?x ?y = Some anc \<and> anc \<noteq> [] \<and>
            anc = mrca_from seed ?x ?y \<and>
            dict_get td ?x = Some t1 \<and> dict_get td ?y = Some t2 \<and>
            0 \<le> t1 * t2 \<and> sqrt (t1 * t2) \<noteq> 0 \<and>
            bm_corr obj ! a ! b = distance_from_root anc / sqrt (t1 * t2)"
      then obtain t1 t2 where
        t: "dict_get td ?x = Some t1" "dict_get td ?y = Some t2"
        and pos: "0 \<le> t1 * t2" "sqrt (t1 * t2) \<noteq> 0"
        and v: "bm_corr obj ! a ! b = distance_from_root (mrca_from seed ?x ?y) / sqrt (t1 * t2)"
        by blast
      let ?d = "distance_from_root (mrca_from seed ?x ?y)"
      from leaf_of[OF t(1)] obtain l1 where l1: "l1 \<in> set (leaf_node_iter seed)"
        "taxon (node_of seed l1) = Some ?x" "t1 = distance_from_root l1" by blast
      from leaf_of[OF t(2)] obtain l2 where l2: "l2 \<in> set (leaf_node_iter seed)"
        "taxon (node_of seed l2) = Some ?y" "t2 = distance_from_root l2" by blast
      have d0: "0 \<le> ?d" and d1: "?d \<le> t1"
        using mrca_depth_bounds[OF nn d l1(1), of ?x ?y] l1(2,3) by simp_all
      have d2: "?d \<le> t2"
        using mrca_depth_bounds(2)[OF nn d l2(1), of ?x ?y] l2(2,3) by simp
      from pos(1) have "0 \<le> sqrt (t1 * t2)" by simp
      with pos(2) have sp: "0 < sqrt (t1 * t2)" by (simp add: less_le)
      have "?d * ?d \<le> t1 * t2" using d0 d1 d2 by (intro mult_mono) auto
      then have "?d \<le> sqrt (t1 * t2)" by (simp add: real_le_rsqrt power2_eq_square)
      with d0 sp v show ?thesis by simp
    qed
  qed
  have sym: "bm_corr obj ! i ! j = bm_corr obj ! j ! i"
  proof (cases i j rule: linorder_cases)
    case less
    with pc[OF less ij(2)] show ?thesis by simp
  next
    case equal
    then show ?thesis by simp
  next
    case greater
    with pc[OF greater ij(1)] show ?thesis by simp
  qed
  have "0 \<le> bm_corr obj ! i ! j \<and> bm_corr obj ! i ! j \<le> 1" if "i \<noteq> j"
  proof (cases "i < j")
    case True
    from bound[OF True ij(2)] show ?thesis .
  next
    case False
    with that have "j < i" by simp
    from bound[OF this ij(1)] sym show ?thesis by simp
  qed
  with sq sym diag[OF ij(1)] show ?thesis by blast
qed

section \<open>C3: symmetry, unit diagonal and bounds\<close>




section \<open>The forward pass: masks and errors\<close>

lemma mask_body_mask_value:
  "mask_body self labels (i, j) m =
     (if i = j then Inr m
      else case mask_value self labels i j of
             Inl e \<Rightarrow> Inl e
           | Inr v \<Rightarrow> Inr (mat_set (mat_set m i j v) j i v))"
  by (simp add: mask_value_def split: sum.splits)

lemma for_each_total:
  "(\<And>x s. x \<in> set ps \<Longrightarrow> \<exists>s'. body x s = Inr s') \<Longrightarrow> \<exists>s'. for_each body ps s = Inr s'"
proof (induction ps arbitrary: s)
  case Nil
  then show ?case by simp
next
  case (Cons p ps)
  from Cons.prems[of p s] obtain s1 where s1: "body p s = Inr s1" by auto
  from Cons.IH[of s1] Cons.prems obtain s' where "for_each body ps s1 = Inr s'" by auto
  with s1 show ?case by simp
qed


lemma tensor_index_in_range: "0 \<le> k \<Longrightarrow> k < int n \<Longrightarrow> tensor_index n k = Inr (nat k)"
  by (simp add: tensor_index_def)

lemma bm_corr_get_in_range:
  assumes "is_square n m" "0 \<le> a" "a < int n" "0 \<le> b" "b < int n"
  shows "bm_corr_get m a b = Inr (m ! nat a ! nat b)"
proof -
  from assms have "length m = n" "length (m ! nat a) = n"
    by (auto simp: is_square_def list_all_iff)
  with assms show ?thesis by (simp add: bm_corr_get_def tensor_index_in_range)
qed

lemma flatten_shape0:
  "flatten_features features = Inr feats \<Longrightarrow> 3 \<le> length (shape features) \<Longrightarrow>
   shape feats ! 0 = shape features ! 0"
  by (auto simp: flatten_features_def split: if_splits)

lemma mask_body_Inl: "mask_body self labels x m = Inl e \<Longrightarrow> e = IndexError"
  by (cases x)
     (auto simp: labels_get_def bm_corr_get_def tensor_index_def split: if_splits sum.splits)

lemma derive_mask_Inl:
  assumes "derive_mask self batch_size labels mask_opt = Inl e"
  shows "(e = ArgumentConflictError \<and> labels \<noteq> None \<and> mask_opt \<noteq> None) \<or>
         (e = IndexError \<and> tree_path self \<noteq> None \<and> labels \<noteq> None \<and> mask_opt = None) \<or>
         (e = ShapeError_labels \<and> tree_path self = None \<and> mask_opt = None \<and>
            (\<exists>ls. labels = Some ls \<and> length ls \<noteq> batch_size))"
proof (cases "labels \<noteq> None \<and> mask_opt \<noteq> None")
  case True
  with assms show ?thesis by (simp add: derive_mask_def)
next
  case nc: False
  show ?thesis
  proof (cases "labels \<noteq> None \<and> tree_path self \<noteq> None")
    case True
    with nc have m: "mask_opt = None" by simp
    from assms True m have "for_each (mask_body self (the labels))
          (combinations_with_replacement2 batch_size) (eye batch_size) = Inl e"
      by (simp add: derive_mask_def)
    from for_each_Inl[OF this] have "e = IndexError" by (auto dest: mask_body_Inl)
    with True m show ?thesis by simp
  next
    case False
    with assms nc show ?thesis
      by (cases labels) (auto simp: derive_mask_def split: if_splits)
  qed
qed

lemma forward_Inl:
  assumes "forward self features labels mask_opt = Inl e"
  shows "(e = ShapeError_rank \<and> length (shape features) < 3) \<or>
         (3 \<le> length (shape features) \<and>
            (e = TorchError \<or> e = UnknownModeError \<or> e = ZeroDivisionError \<or>
             (\<exists>feats. flatten_features features = Inr feats \<and>
                derive_mask self (shape features ! 0) labels mask_opt = Inl e)))"
proof (cases "length (shape features) < 3")
  case True
  with assms show ?thesis by (simp add: forward_def)
next
  case False
  then have r: "3 \<le> length (shape features)" by simp
  show ?thesis
  proof (cases "flatten_features features")
    case (Inl e')
    with assms False have "e = TorchError"
      by (auto simp: forward_def flatten_features_def split: if_splits)
    with r show ?thesis by simp
  next
    case (Inr feats)
    note b = flatten_shape0[OF Inr r]
    show ?thesis
    proof (cases "derive_mask self (shape features ! 0) labels mask_opt")
      case (Inl e')
      with assms False Inr b have "e = e'" by (simp add: forward_def)
      with Inl Inr r show ?thesis by simp
    next
      case m: (Inr m)
      with assms False Inr b have
        "e = TorchError \<or> e = UnknownModeError \<or> e = ZeroDivisionError"
        by (auto simp: forward_def select_anchor_def Let_def split: if_splits sum.splits)
      with r show ?thesis by blast
    qed
  qed
qed




lemma ex_square: "is_square 3 (bm_corr example_loss)"
  by (simp add: example_loss_def is_square_def)

section \<open>C4: the mask of a tree-configured loss\<close>

text \<open>
  C4. On a loss with a tree, with labels and without a mask, when the batch has
  \<open>batch_size\<close> samples, the labels are at least as many and each of the first
  \<open>batch_size\<close> labels is an index of the square matrix \<open>bm_corr\<close>, the mask is derived
  without an error, is a \<open>batch_size\<close> by \<open>batch_size\<close> matrix with 1 on the diagonal,
  and for every pair \<open>i < j\<close> both \<open>mask[i][j]\<close> and \<open>mask[j][i]\<close> are
  \<open>bm_corr[labels[i]][labels[j]]\<close>.
\<close>

theorem tree_mask_entries:
  assumes tree: "tree_path self \<noteq> None"
    and sq: "is_square n (bm_corr self)"
    and len: "batch_size \<le> length labels"
    and valid: "\<forall>k < batch_size. 0 \<le> labels ! k \<and> labels ! k < int n"
  shows "\<exists>m. derive_mask self batch_size (Some labels) None = Inr m \<and>
           is_square batch_size m \<and>
           (\<forall>i < batch_size. m ! i ! i = 1) \<and>
           (\<forall>i j. i < j \<longrightarrow> j < batch_size \<longrightarrow>
              m ! i ! j = bm_corr self ! nat (labels ! i) ! nat (labels ! j) \<and>
              m ! j ! i = bm_corr self ! nat (labels ! i) ! nat (labels ! j))"
proof -
  let ?ps = "combinations_with_replacement2 batch_size"
  have val: "mask_value self labels i j = Inr (bm_corr self ! nat (labels ! i) ! nat (labels ! j))"
    if "i < batch_size" "j < batch_size" for i j
    using that len valid bm_corr_get_in_range[OF sq, of "labels ! i" "labels ! j"]
    by (simp add: mask_value_def labels_get_def)
  have "\<exists>s'. mask_body self labels x s = Inr s'" if "x \<in> set ?ps" for x s
  proof -
    obtain i j where x: "x = (i, j)" by (cases x)
    with that have "i < batch_size" "j < batch_size"
      by (simp_all add: set_combinations_with_replacement2)
    from val[OF this] show ?thesis unfolding x mask_body_mask_value by simp
  qed
  from for_each_total[of ?ps "mask_body self labels", OF this] obtain m where
    run: "for_each (mask_body self labels) ?ps (eye batch_size) = Inr m" by blast
  have ps: "\<forall>(i, j) \<in> set ?ps. i \<le> j \<and> j < batch_size"
    by (simp add: set_combinations_with_replacement2)
  note R = for_each_sym[where val = "mask_value self labels" and n = batch_size,
      OF mask_body_mask_value run is_square_eye ps]
  from R have sq': "is_square batch_size m" by simp
  from R have upper: "\<forall>i j. i < j \<longrightarrow> j < batch_size \<longrightarrow>
      (if (i, j) \<in> set ?ps
       then mask_value self labels i j = Inr (m ! i ! j) \<and> m ! j ! i = m ! i ! j
       else m ! i ! j = eye batch_size ! i ! j \<and> m ! j ! i = eye batch_size ! j ! i)"
    by (rule conjunct1[OF conjunct2])
  from R have diag: "\<forall>i < batch_size. m ! i ! i = eye batch_size ! i ! i"
    by (rule conjunct2[OF conjunct2])
  have e: "m ! i ! j = bm_corr self ! nat (labels ! i) ! nat (labels ! j) \<and>
           m ! j ! i = bm_corr self ! nat (labels ! i) ! nat (labels ! j)"
    if ij: "i < j" "j < batch_size" for i j
  proof -
    from ij have "(i, j) \<in> set ?ps" by (simp add: set_combinations_with_replacement2)
    with upper[rule_format, OF ij] have
      "mask_value self labels i j = Inr (m ! i ! j)" "m ! j ! i = m ! i ! j" by simp_all
    moreover from ij have "i < batch_size" by simp
    ultimately show ?thesis using val[OF _ ij(2), of i] by simp
  qed
  from tree run have "derive_mask self batch_size (Some labels) None = Inr m"
    by (simp add: derive_mask_def)
  moreover from diag have "\<forall>i < batch_size. m ! i ! i = 1" by (simp add: eye_nth)
  ultimately show ?thesis using sq' e by blast
qed

theorem tree_mask_entries_witness:
  "tree_path example_loss \<noteq> None \<and> is_square 3 (bm_corr example_loss) \<and>
   (2::nat) \<le> length [0, 1 :: int] \<and>
   (\<exists>m. derive_mask example_loss 2 (Some [0, 1]) None = Inr m \<and> is_square 2 m \<and>
      m ! 0 ! 0 = 1 \<and> m ! 0 ! 1 = 1 / 2 \<and> m ! 1 ! 0 = 1 / 2)"
proof -
  have t: "tree_path example_loss \<noteq> None" by (simp add: example_loss_def)
  have l: "(2::nat) \<le> length [0, 1 :: int]" by simp
  have v: "\<forall>k < (2::nat). 0 \<le> [0, 1 :: int] ! k \<and> [0, 1 :: int] ! k < int 3"
    by (simp add: less_Suc_eq numeral_2_eq_2)
  from tree_mask_entries[OF t ex_square l v] obtain m where
    m: "derive_mask example_loss 2 (Some [0, 1]) None = Inr m" "is_square 2 m"
    "\<forall>i < 2. m ! i ! i = 1"
    "\<forall>i j. i < j \<longrightarrow> j < 2 \<longrightarrow>
       m ! i ! j = bm_corr example_loss ! nat ([0, 1] ! i) ! nat ([0, 1] ! j) \<and>
       m ! j ! i = bm_corr example_loss ! nat ([0, 1] ! i) ! nat ([0, 1] ! j)"
    by blast
  from m(3) have "m ! 0 ! 0 = 1" by simp
  moreover from m(4)[rule_format, of 0 1] have "m ! 0 ! 1 = 1 / 2" "m ! 1 ! 0 = 1 / 2"
    by (simp_all add: example_loss_def)
  ultimately show ?thesis using t ex_square l m(1,2) by blast
qed

section \<open>C7: labels and mask together\<close>

text \<open>
  C7, as the claim states it, fails: on a feature tensor of two axes the call with both
  labels and a mask raises the error of the rank check, not \<open>ArgumentConflictError\<close>.
\<close>

theorem conflict_error_counterexample:
  "forward no_tree_loss rank2_features (Some [0, 1]) (Some [[1, 0], [0, 1]]) = Inl ShapeError_rank"
  by (simp add: forward_def rank2_features_def)

text \<open>
  C7, amended. Every call with both labels and a mask whose feature tensor has at least
  three axes (and, with more than three axes, samples and views to flatten) fails with
  \<open>ArgumentConflictError\<close>, whatever the labels and the mask are.
\<close>

theorem conflict_error_when_rank_ok:
  assumes "3 \<le> length (shape features)"
    and "3 < length (shape features) \<longrightarrow> shape features ! 0 * shape features ! 1 \<noteq> 0"
  shows "forward self features (Some labels) (Some m) = Inl ArgumentConflictError"
  using assms by (auto simp: forward_def flatten_features_def derive_mask_def Let_def)

theorem conflict_error_when_rank_ok_witness:
  "3 \<le> length (shape single_view_features) \<and>
   forward no_tree_loss single_view_features (Some [0, 1]) (Some [[1, 0], [0, 1]]) =
     Inl ArgumentConflictError"
proof -
  have r: "3 \<le> length (shape single_view_features)" by (simp add: single_view_features_def)
  have f: "3 < length (shape single_view_features) \<longrightarrow>
      shape single_view_features ! 0 * shape single_view_features ! 1 \<noteq> 0"
    by (simp add: single_view_features_def)
  from conflict_error_when_rank_ok[OF r f] r show ?thesis by blast
qed

section \<open>C9: no length check on the labels of a tree-configured loss\<close>



section \<open>C10: the rank check comes first\<close>

text \<open>
  C10. A call whose feature tensor has fewer than three axes raises the error of the rank
  check, whatever the labels and the mask are, also when both are given; and a call that
  raises \<open>ArgumentConflictError\<close> has a feature tensor of at least three axes, labels
  and a mask.
\<close>

theorem rank_check_precedes_conflict:
  "(length (shape features) < 3 \<longrightarrow>
      forward self features labels mask_opt = Inl ShapeError_rank) \<and>
   (forward self features labels mask_opt = Inl ArgumentConflictError \<longrightarrow>
      3 \<le> length (shape features) \<and> labels \<noteq> None \<and> mask_opt \<noteq> None)"
proof (intro conjI impI)
  assume "length (shape features) < 3"
  then show "forward self features labels mask_opt = Inl ShapeError_rank"
    by (simp add: forward_def)
next
  assume a: "forward self features labels mask_opt = Inl ArgumentConflictError"
  from forward_Inl[OF a] show "3 \<le> length (shape features)" by auto
  from forward_Inl[OF a] have
    "derive_mask self (shape features ! 0) labels mask_opt = Inl ArgumentConflictError"
    by auto
  from derive_mask_Inl[OF this] show "labels \<noteq> None" "mask_opt \<noteq> None" by auto
qed

theorem rank_check_precedes_conflict_witness:
  "length (shape rank2_features) < 3 \<and>
   forward no_tree_loss rank2_features (Some [0, 1]) (Some [[1, 0], [0, 1]]) = Inl ShapeError_rank \<and>
   forward no_tree_loss single_view_features (Some [0, 1]) (Some [[1, 0], [0, 1]]) =
     Inl ArgumentConflictError \<and>
   3 \<le> length (shape single_view_features)"
proof -
  have r: "length (shape rank2_features) < 3" by (simp add: rank2_features_def)
  have c: "forward no_tree_loss single_view_features (Some [0, 1]) (Some [[1, 0], [0, 1]]) =
     Inl ArgumentConflictError"
    by (simp add: forward_def single_view_features_def flatten_features_def derive_mask_def)
  from rank_check_precedes_conflict[of rank2_features no_tree_loss "Some [0, 1]"
      "Some [[1, 0], [0, 1]]"] r
  have "forward no_tree_loss rank2_features (Some [0, 1]) (Some [[1, 0], [0, 1]]) =
    Inl ShapeError_rank" by blast
  moreover from rank_check_precedes_conflict[of single_view_features no_tree_loss "Some [0, 1]"
      "Some [[1, 0], [0, 1]]"] c
  have "3 \<le> length (shape single_view_features)" by blast
  ultimately show ?thesis using r c by blast
qed


section \<open>C6: the scalar that a forward call returns\<close>










section \<open>C8: label smoothing without smoothing\<close>

lemma zeros_dot: "sum_list (map2 (*) (map uminus (map (\<lambda>_. 0) ys)) ys) = (0::real)"
  by (induction ys) simp_all

lemma onehot_dot:
  "k < length ys \<Longrightarrow>
   sum_list (map2 (*) (map uminus ((map (\<lambda>_. 0) ys)[k := 1])) ys) = - (ys ! k :: real)"
proof (induction ys arbitrary: k)
  case Nil
  then show ?case by simp
next
  case (Cons y ys)
  show ?case
  proof (cases k)
    case 0
    then show ?thesis using zeros_dot[of ys] by simp
  next
    case (Suc k')
    with Cons.prems have "k' < length ys" by simp
    from Cons.IH[OF this] Suc show ?thesis by simp
  qed
qed

lemma length_log_softmax_row: "length (log_softmax_row row) = length row"
  by (simp add: log_softmax_row_def)

lemma smoothed_rows:
  assumes "length pred = length target"
    and "\<forall>(row, t) \<in> set (zip pred target). 0 \<le> t \<and> nat t < length row"
  shows "map sum_list
           (map2 (map2 (*))
              (map (map uminus)
                 (map2 (\<lambda>row t. row[nat t := 1])
                    (map (map (\<lambda>_. 0)) (map log_softmax_row pred)) target))
              (map log_softmax_row pred)) =
         map2 (\<lambda>row t. - (log_softmax_row row ! nat t)) pred target"
  using assms
proof (induction pred target rule: list_induct2)
  case Nil
  then show ?case by simp
next
  case (Cons row pred t target)
  from Cons.prems have "nat t < length (log_softmax_row row)"
    by (simp add: length_log_softmax_row)
  from onehot_dot[OF this] Cons show ?case by simp
qed

lemma scatter1_in_range:
  assumes "length m = length target"
    and "\<forall>(row, t) \<in> set (zip m target). 0 \<le> t \<and> t < int (length row)"
  shows "scatter1 m target v = Inr (map2 (\<lambda>row t. row[nat t := v]) m target)"
  using assms(2) by (auto simp: scatter1_def list_ex_iff)


text \<open>
  C8. For a prediction matrix with \<open>classes\<close> columns, at least 2, and a target vector of
  the length of the batch whose entries are classes, the loss constructed with smoothing
  0 (along the class axis, \<open>dim\<close> -1 or 1) returns the standard cross-entropy loss: the
  mean over the batch of the negative log-softmax probability of the true class.
\<close>

theorem label_smoothing_zero_is_cross_entropy:
  assumes d: "d = -1 \<or> d = 1"
    and c: "2 \<le> classes"
    and cols: "\<forall>row \<in> set pred. int (length row) = classes"
    and len: "length target = length pred"
    and tgt: "\<forall>t \<in> set target. 0 \<le> t \<and> t < classes"
  shows "LabelSmoothingLoss_forward (LabelSmoothingLoss_init classes 0 d) pred target =
         Inr (cross_entropy pred target)"
proof -
  let ?self = "LabelSmoothingLoss_init classes 0 d"
  let ?lsm = "map log_softmax_row pred"
  have f: "smoothing ?self = 0" "confidence ?self = 1" "cls ?self = classes" "dim ?self = d"
    by (simp_all add: LabelSmoothingLoss_init_def)
  from d have ti: "tensor_index 2 d = Inr 1" by (auto simp: tensor_index_def)
  have zt: "\<forall>(row, t) \<in> set (zip pred target). 0 \<le> t \<and> nat t < length row"
  proof (clarify)
    fix row t assume "(row, t) \<in> set (zip pred target)"
    then have "row \<in> set pred" "t \<in> set target" by (auto dest: set_zip_leftD set_zip_rightD)
    with cols tgt have "int (length row) = classes" "0 \<le> t" "t < classes" by auto
    then show "0 \<le> t \<and> nat t < length row" by linarith
  qed
  let ?td = "map (map (\<lambda>_. 0)) ?lsm"
  have zt': "\<forall>(row, t) \<in> set (zip ?td target). 0 \<le> t \<and> t < int (length row)"
  proof (clarify)
    fix row t assume "(row, t) \<in> set (zip ?td target)"
    then obtain i where i: "i < length pred" "i < length target"
      "row = map (\<lambda>_. 0) (log_softmax_row (pred ! i))" "t = target ! i"
      by (auto simp: set_zip)
    then have "(pred ! i, t) \<in> set (zip pred target)" by (auto simp: set_zip)
    with zt i show "0 \<le> t \<and> t < int (length row)"
      by (auto simp: length_log_softmax_row)
  qed
  have sc: "scatter1 ?td target 1 = Inr (map2 (\<lambda>row t. row[nat t := 1]) ?td target)"
    by (rule scatter1_in_range[OF _ zt']) (simp add: len)
  have rows: "map sum_list
           (map2 (map2 (*))
              (map (map uminus) (map2 (\<lambda>row t. row[nat t := 1]) ?td target)) ?lsm) =
         map2 (\<lambda>row t. - (log_softmax_row row ! nat t)) pred target"
    by (rule smoothed_rows[OF len[symmetric] zt])
  have e: "map2 (\<lambda>row t. - (log_softmax_row row ! nat t)) pred target = [] \<longleftrightarrow> pred = []"
    using len by (cases pred; cases target) simp_all
  have l: "length (map2 (\<lambda>row t. - (log_softmax_row row ! nat t)) pred target) = length pred"
    using len by simp
  from c have c1: "classes - 1 \<noteq> 0" by simp
  show ?thesis
    unfolding LabelSmoothingLoss_forward_def f ti
    using len c1 sc
    by (auto simp add: Let_def log_softmax_dim_def sum_dim_def mat_mul_def rows e l
        cross_entropy_def simp del: map_map)
qed

theorem label_smoothing_zero_is_cross_entropy_witness:
  "LabelSmoothingLoss_forward (LabelSmoothingLoss_init 3 0 (- 1)) [[2, 0, 0]] [0] =
   Inr (cross_entropy [[2, 0, 0]] [0])"
  by (rule label_smoothing_zero_is_cross_entropy) simp_all

end
